theory Spec2Isabelle
  imports Main "HOL-Library.Word"
begin

section \<open>Strings and values of the source language\<close>

text \<open>
  The component is TypeScript. A string of the source is a sequence of UTF-16 code
  units, so it is modelled as a list of 16-bit words; \<open>null\<close> and \<open>undefined\<close> are
  \<open>None\<close> of an option type. The three Persian literals of \<^verbatim>\<open>App.tsx\<close> are written
  out code unit by code unit (they lie in the Basic Multilingual Plane, one unit per
  character); ASCII literals are converted from Isabelle strings by \<open>ascii\<close>.
\<close>

type_synonym js_string = "16 word list"

definition ascii :: "string \<Rightarrow> js_string" where
  "ascii s = map of_char s"

text \<open>Truthiness of a \<^verbatim>\<open>string | null\<close>: \<open>null\<close> and the empty string are falsy.\<close>

definition truthy :: "js_string option \<Rightarrow> bool" where
  "truthy v = (case v of None \<Rightarrow> False | Some s \<Rightarrow> s \<noteq> [])"

text \<open>The operator \<^verbatim>\<open>a || b\<close> on strings: \<open>a\<close> when it is truthy, else \<open>b\<close>.\<close>

definition or_else :: "js_string option \<Rightarrow> js_string \<Rightarrow> js_string" where
  "or_else a b = (case a of None \<Rightarrow> b | Some s \<Rightarrow> if s = [] then b else s)"

text \<open>
  \<^verbatim>\<open>s.split(sep)\<close> for a separator of one code unit: the pieces between the
  separators, in order. The result is never empty (\<^verbatim>\<open>"".split(",")\<close> is \<^verbatim>\<open>[""]\<close>).
\<close>

fun js_split :: "'a \<Rightarrow> 'a list \<Rightarrow> 'a list list" where
  "js_split sep [] = [[]]"
| "js_split sep (x # xs) =
     (let r = js_split sep xs
      in if x = sep then [] # r else (x # hd r) # tl r)"

text \<open>Indexing an array: \<open>undefined\<close> (here \<open>None\<close>) out of range.\<close>

definition js_index :: "'a list \<Rightarrow> nat \<Rightarrow> 'a option" where
  "js_index xs i = (if i < length xs then Some (xs ! i) else None)"

definition comma :: "16 word" where
  "comma = 0x2C"

section \<open>The literals of the component\<close>

text \<open>The model identifier and the declared MIME type of the request.\<close>

definition model_id :: js_string where
  "model_id = ascii ''gemini-3-flash-preview''"

definition mime_type :: js_string where
  "mime_type = ascii ''image/jpeg''"

text \<open>The instruction sent with every image (193 code units).\<close>

definition instruction_text :: js_string where
  "instruction_text =
    [0x0644, 0x0637, 0x0641, 0x0627, 0x064B, 0x0020, 0x0627, 0x06CC, 0x0646, 0x0020,
     0x062A, 0x0635, 0x0648, 0x06CC, 0x0631, 0x0020, 0x0631, 0x0627, 0x0020, 0x0628,
     0x0627, 0x0020, 0x062F, 0x0642, 0x062A, 0x0020, 0x0628, 0x0633, 0x06CC, 0x0627,
     0x0631, 0x0020, 0x0632, 0x06CC, 0x0627, 0x062F, 0x0020, 0x0648, 0x0020, 0x062C,
     0x0632, 0x0626, 0x06CC, 0x0627, 0x062A, 0x0020, 0x06A9, 0x0627, 0x0645, 0x0644,
     0x0020, 0x0628, 0x0647, 0x0020, 0x0632, 0x0628, 0x0627, 0x0646, 0x0020, 0x0641,
     0x0627, 0x0631, 0x0633, 0x06CC, 0x0020, 0x062A, 0x0648, 0x0636, 0x06CC, 0x062D,
     0x0020, 0x062F, 0x0647, 0x06CC, 0x062F, 0x002E, 0x0020, 0x062A, 0x0648, 0x0636,
     0x06CC, 0x062D, 0x0627, 0x062A, 0x0020, 0x0628, 0x0627, 0x06CC, 0x062F, 0x0020,
     0x0634, 0x0627, 0x0645, 0x0644, 0x0020, 0x0627, 0x0634, 0x06CC, 0x0627, 0x0621,
     0x060C, 0x0020, 0x0631, 0x0646, 0x06AF, 0x200C, 0x0647, 0x0627, 0x060C, 0x0020,
     0x0641, 0x0636, 0x0627, 0x0020, 0x0648, 0x0020, 0x0647, 0x0631, 0x0020, 0x0646,
     0x06A9, 0x062A, 0x0647, 0x0020, 0x0645, 0x0647, 0x0645, 0x0020, 0x062F, 0x06CC,
     0x06AF, 0x0631, 0x06CC, 0x0020, 0x0628, 0x0627, 0x0634, 0x062F, 0x0020, 0x06A9,
     0x0647, 0x0020, 0x062F, 0x0631, 0x0020, 0x062A, 0x0635, 0x0648, 0x06CC, 0x0631,
     0x0020, 0x062F, 0x06CC, 0x062F, 0x0647, 0x0020, 0x0645, 0x06CC, 0x200C, 0x0634,
     0x0648, 0x062F, 0x002E, 0x0020, 0x0644, 0x062D, 0x0646, 0x0020, 0x0634, 0x0645,
     0x0627, 0x0020, 0x0645, 0x062D, 0x062A, 0x0631, 0x0645, 0x0627, 0x0646, 0x0647,
     0x0020, 0x0648, 0x0020, 0x062F, 0x0642, 0x06CC, 0x0642, 0x0020, 0x0628, 0x0627,
     0x0634, 0x062F, 0x002E]"

text \<open>The phrase shown when the response has no text (27 code units).\<close>

definition fallback_text :: js_string where
  "fallback_text =
    [0x0645, 0x062A, 0x0623, 0x0633, 0x0641, 0x0627, 0x0646, 0x0647, 0x0020, 0x062A,
     0x0648, 0x0636, 0x06CC, 0x062D, 0x06CC, 0x0020, 0x062F, 0x0631, 0x06CC, 0x0627,
     0x0641, 0x062A, 0x0020, 0x0646, 0x0634, 0x062F, 0x002E]"

text \<open>The message shown when the request fails (52 code units).\<close>

definition failure_message :: js_string where
  "failure_message =
    [0x062E, 0x0637, 0x0627, 0x06CC, 0x06CC, 0x0020, 0x062F, 0x0631, 0x0020, 0x062A,
     0x062D, 0x0644, 0x06CC, 0x0644, 0x0020, 0x062A, 0x0635, 0x0648, 0x06CC, 0x0631,
     0x0020, 0x0631, 0x062E, 0x0020, 0x062F, 0x0627, 0x062F, 0x002E, 0x0020, 0x0644,
     0x0637, 0x0641, 0x0627, 0x064B, 0x0020, 0x062F, 0x0648, 0x0628, 0x0627, 0x0631,
     0x0647, 0x0020, 0x062A, 0x0644, 0x0627, 0x0634, 0x0020, 0x06A9, 0x0646, 0x06CC,
     0x062F, 0x002E]"

section \<open>State of the component and the effects of its handlers\<close>

text \<open>
  The four \<^verbatim>\<open>useState\<close> cells of \<^verbatim>\<open>App\<close> (the Session) and the file input behind
  \<^verbatim>\<open>fileInputRef\<close>: \<open>fileInput\<close> is \<open>None\<close> while the ref is \<open>null\<close> (the input
  is not mounted) and holds the input's \<open>value\<close> otherwise.
\<close>

record component =
  image_st :: "js_string option"
  analysis :: js_string
  loading :: bool
  error_st :: "js_string option"
  fileInput :: "js_string option"

type_synonym file_bytes = "8 word list"

record request =
  req_apiKey :: "js_string option"
  req_model :: js_string
  req_mimeType :: js_string
  req_data :: "js_string option"
  req_text :: js_string

text \<open>
  A handler is the list of the effects it performs, in program order: the state
  setters, the write to the file input, and the calls that leave the component
  (\<^verbatim>\<open>reader.readAsDataURL\<close>, \<^verbatim>\<open>ai.models.generateContent\<close>, \<^verbatim>\<open>console.error\<close>).
\<close>

datatype effect =
    SetImage "js_string option"
  | SetAnalysis js_string
  | SetLoading bool
  | SetError "js_string option"
  | ClearFileInput
  | ReadAsDataURL file_bytes
  | GenerateContent request
  | ConsoleError

fun perform :: "effect \<Rightarrow> component \<Rightarrow> component" where
  "perform (SetImage v) c = c\<lparr>image_st := v\<rparr>"
| "perform (SetAnalysis v) c = c\<lparr>analysis := v\<rparr>"
| "perform (SetLoading b) c = c\<lparr>loading := b\<rparr>"
| "perform (SetError v) c = c\<lparr>error_st := v\<rparr>"
| "perform ClearFileInput c =
     (case fileInput c of None \<Rightarrow> c | Some _ \<Rightarrow> c\<lparr>fileInput := Some []\<rparr>)"
| "perform (ReadAsDataURL f) c = c"
| "perform (GenerateContent r) c = c"
| "perform ConsoleError c = c"

fun exec :: "effect list \<Rightarrow> component \<Rightarrow> component" where
  "exec [] c = c"
| "exec (e # es) c = exec es (perform e c)"

text \<open>The requests that a run of effects sends to the gateway, oldest first.\<close>

fun requests :: "effect list \<Rightarrow> request list" where
  "requests [] = []"
| "requests (GenerateContent r # es) = r # requests es"
| "requests (e # es) = requests es"

section \<open>The handlers\<close>

text \<open>
  \<^verbatim>\<open>handleImageUpload\<close>: \<^verbatim>\<open>e.target.files?.[0]\<close> is the first file, if any; a
  reader is started on it. \<open>onloadend\<close> is the callback the handler installs:
  the browser calls it when the read has ended, with \<^verbatim>\<open>reader.result\<close> the data
  URL, or \<open>null\<close> when the read failed.
\<close>

definition handleImageUpload :: "file_bytes list \<Rightarrow> effect list" where
  "handleImageUpload files = (case files of [] \<Rightarrow> [] | f # _ \<Rightarrow> [ReadAsDataURL f])"

definition onloadend :: "js_string option \<Rightarrow> effect list" where
  "onloadend result = [SetImage result, SetAnalysis [], SetError None]"

text \<open>\<^verbatim>\<open>reset\<close>.\<close>

definition reset :: "effect list" where
  "reset = [SetImage None, SetAnalysis [], SetError None, ClearFileInput]"

text \<open>
  \<^verbatim>\<open>analyzeImage\<close>. What lies outside the component is a parameter: the value of
  \<^verbatim>\<open>process.env.GEMINI_API_KEY\<close>, and what the calls inside \<^verbatim>\<open>try\<close> do. Either
  the first statement, \<^verbatim>\<open>new GoogleGenAI(...)\<close>, throws, and \<^verbatim>\<open>generateContent\<close> is
  never reached; or the request is made and awaited, and it is rejected (the call
  or the reading of the response throws) or resolved with a response whose
  \<^verbatim>\<open>text\<close> is a string or \<open>undefined\<close>. (\<^verbatim>\<open>image.split(',')[1]\<close> cannot throw:
  \<open>image\<close> is a non-empty string there.) In the \<^verbatim>\<open>catch\<close> branch the error is logged
  and the message set; the \<^verbatim>\<open>finally\<close> block ends every run that passed the guard.
\<close>

datatype settlement = Rejected | Resolved "js_string option"

datatype gateway_outcome = ClientThrows | Awaited settlement

definition generateContent_request :: "js_string option \<Rightarrow> js_string \<Rightarrow> request" where
  "generateContent_request apiKey img =
     \<lparr>req_apiKey = apiKey,
      req_model = model_id,
      req_mimeType = mime_type,
      req_data = js_index (js_split comma img) 1,
      req_text = instruction_text\<rparr>"

definition on_catch :: "effect list" where
  "on_catch = [ConsoleError, SetError (Some failure_message)]"

definition on_finally :: "effect list" where
  "on_finally = [SetLoading False]"

definition analyzeImage :: "js_string option \<Rightarrow> gateway_outcome \<Rightarrow> component \<Rightarrow> effect list" where
  "analyzeImage apiKey outcome c =
     (case image_st c of
        None \<Rightarrow> []
      | Some img \<Rightarrow>
          if img = [] then []
          else [SetLoading True, SetError None, SetAnalysis []] @
               (case outcome of
                  ClientThrows \<Rightarrow> on_catch
                | Awaited Rejected \<Rightarrow>
                    GenerateContent (generateContent_request apiKey img) # on_catch
                | Awaited (Resolved text) \<Rightarrow>
                    [GenerateContent (generateContent_request apiKey img),
                     SetAnalysis (or_else text fallback_text)]) @
               on_finally)"

text \<open>
  The same function cut at its \<^verbatim>\<open>await\<close>: \<open>analyzeImage_sync\<close> is what the click
  handler performs before it returns to the event loop (all of it when the client
  constructor throws), \<open>analyzeImage_resumed\<close> is what runs once the promise has
  settled. The component given to \<open>analyzeImage_sync\<close> is the one whose \<open>image\<close> the
  closure has captured.
\<close>

definition analyzeImage_sync :: "js_string option \<Rightarrow> bool \<Rightarrow> component \<Rightarrow> effect list" where
  "analyzeImage_sync apiKey client_throws c =
     (case image_st c of
        None \<Rightarrow> []
      | Some img \<Rightarrow>
          if img = [] then []
          else [SetLoading True, SetError None, SetAnalysis []] @
               (if client_throws then on_catch @ on_finally
                else [GenerateContent (generateContent_request apiKey img)]))"

definition analyzeImage_resumed :: "settlement \<Rightarrow> effect list" where
  "analyzeImage_resumed s =
     (case s of
        Rejected \<Rightarrow> on_catch
      | Resolved text \<Rightarrow> [SetAnalysis (or_else text fallback_text)]) @
     on_finally"

section \<open>The component as a transition system\<close>

text \<open>
  A handler runs against the page as it was last rendered: the buttons that exist
  are those of that rendering, and the closure \<open>analyzeImage\<close> reads the \<open>image\<close> of
  that rendering. The setters act on the cells; the page is rendered again only
  after the handler has returned, so a further event can still meet the old
  rendering (two clicks in one task). At a rendering the file input, part of the
  upload box, is mounted when \<open>image\<close> is falsy and unmounted otherwise; the ref
  follows the mounting.
\<close>

definition render :: "component \<Rightarrow> component" where
  "render c =
     c\<lparr>fileInput :=
          (if truthy (image_st c) then None
           else (case fileInput c of None \<Rightarrow> Some [] | Some v \<Rightarrow> Some v))\<rparr>"

text \<open>
  The world: \<open>app\<close> holds the cells and the file input as the handlers have left
  them, \<open>view\<close> the cells as they were last rendered; then the number of file
  readers that have not yet called back, and the number of gateway requests that
  have not yet settled.
\<close>

record world =
  app :: component
  view :: component
  reading :: nat
  in_flight :: nat

fun reads :: "effect list \<Rightarrow> nat" where
  "reads [] = 0"
| "reads (ReadAsDataURL f # es) = Suc (reads es)"
| "reads (e # es) = reads es"

definition handle :: "effect list \<Rightarrow> world \<Rightarrow> world" where
  "handle es w =
     w\<lparr>app := exec es (app w),
       reading := reading w + reads es,
       in_flight := in_flight w + length (requests es)\<rparr>"

text \<open>
  The events:
  \<^item> \<open>Change v files\<close>: the user picks files; the input must be mounted, and the
    browser has set its value to \<open>v\<close>;
  \<^item> \<open>LoadEnd result\<close>: a started reader calls back;
  \<^item> \<open>ClickAnalyze client_throws\<close>: a click on the analyse button, which the last
    rendering shows under \<^verbatim>\<open>!analysis && !loading\<close> in the branch where \<open>image\<close> is
    truthy; \<open>analyzeImage\<close> itself tests \<^verbatim>\<open>!image\<close> only;
  \<^item> \<open>Settle s\<close>: a request in flight settles;
  \<^item> \<open>ClickReset\<close>: a click on the restart button, which the last rendering shows
    when \<open>image\<close> is truthy;
  \<^item> \<open>Render\<close>: the page is rendered from the cells.
\<close>

datatype event =
    Change js_string "file_bytes list"
  | LoadEnd "js_string option"
  | ClickAnalyze bool
  | Settle settlement
  | ClickReset
  | Render

fun step :: "js_string option \<Rightarrow> event \<Rightarrow> world \<Rightarrow> world option" where
  "step apiKey (Change v files) w =
     (if fileInput (app w) = None then None
      else Some (handle (handleImageUpload files) (w\<lparr>app := (app w)\<lparr>fileInput := Some v\<rparr>\<rparr>)))"
| "step apiKey (LoadEnd result) w =
     (if reading w = 0 then None
      else Some (handle (onloadend result) (w\<lparr>reading := reading w - 1\<rparr>)))"
| "step apiKey (ClickAnalyze client_throws) w =
     (if truthy (image_st (view w)) \<and> analysis (view w) = [] \<and> \<not> loading (view w)
      then Some (handle (analyzeImage_sync apiKey client_throws (view w)) w)
      else None)"
| "step apiKey (Settle s) w =
     (if in_flight w = 0 then None
      else Some (handle (analyzeImage_resumed s) (w\<lparr>in_flight := in_flight w - 1\<rparr>)))"
| "step apiKey ClickReset w =
     (if truthy (image_st (view w)) then Some (handle reset w) else None)"
| "step apiKey Render w = Some (w\<lparr>app := render (app w), view := render (app w)\<rparr>)"

fun run :: "js_string option \<Rightarrow> event list \<Rightarrow> world \<Rightarrow> world option" where
  "run apiKey [] w = Some w"
| "run apiKey (e # es) w =
     (case step apiKey e w of None \<Rightarrow> None | Some w' \<Rightarrow> run apiKey es w')"

text \<open>The page as first rendered: every cell at its \<^verbatim>\<open>useState\<close> default.\<close>

definition initial :: world where
  "initial =
     \<lparr>app = \<lparr>image_st = None, analysis = [], loading = False, error_st = None,
             fileInput = Some []\<rparr>,
      view = \<lparr>image_st = None, analysis = [], loading = False, error_st = None,
              fileInput = Some []\<rparr>,
      reading = 0,
      in_flight = 0\<rparr>"

text \<open>
  The runs in which no submission overlaps another: \<open>analyzeImage\<close> is started only
  while no request is in flight. \<open>single_flight\<close> is \<open>run\<close> restricted to them.
\<close>

fun is_submission :: "event \<Rightarrow> bool" where
  "is_submission (ClickAnalyze client_throws) = True"
| "is_submission e = False"

fun single_flight :: "js_string option \<Rightarrow> event list \<Rightarrow> world \<Rightarrow> world option" where
  "single_flight apiKey [] w = Some w"
| "single_flight apiKey (e # es) w =
     (if is_submission e \<and> in_flight w \<noteq> 0 then None
      else (case step apiKey e w of
              None \<Rightarrow> None
            | Some w' \<Rightarrow> single_flight apiKey es w'))"

text \<open>
  The runs in which every click on the analyse button meets a rendering whose
  loading flag is that of the cells (the page has been rendered since the flag was
  last written).
\<close>

fun rendered_clicks :: "js_string option \<Rightarrow> event list \<Rightarrow> world \<Rightarrow> world option" where
  "rendered_clicks apiKey [] w = Some w"
| "rendered_clicks apiKey (e # es) w =
     (if is_submission e \<and> loading (view w) \<noteq> loading (app w) then None
      else (case step apiKey e w of
              None \<Rightarrow> None
            | Some w' \<Rightarrow> rendered_clicks apiKey es w'))"

text \<open>How many of the given conditions hold.\<close>

definition holding :: "bool list \<Rightarrow> nat" where
  "holding bs = length (filter id bs)"


text \<open>
  Following the words of the specification, not the code: the part of a string after
  its first comma (all of what follows it; empty when there is no comma), which is
  what "stripped of its encoding-scheme prefix" describes. The data of the request
  is compared with it.
\<close>

definition part_after_first_comma :: "js_string \<Rightarrow> js_string" where
  "part_after_first_comma s = drop 1 (dropWhile (\<lambda>x. x \<noteq> comma) s)"

text \<open>
  The string that \<^verbatim>\<open>readAsDataURL\<close> hands to the callback for a file of the given
  media type: the scheme prefix, ending in the only comma of the string, and then
  the base64 text of the bytes (the base64 alphabet has no comma, and neither has
  a media type).
\<close>

definition data_url :: "js_string \<Rightarrow> js_string \<Rightarrow> js_string" where
  "data_url mediatype b64 = ascii ''data:'' @ mediatype @ ascii '';base64,'' @ b64"

text \<open>
  The worlds in which the loading flag counts the requests in flight, nothing is
  shown while a request is pending, and a result and an error are never shown
  together.
\<close>

definition consistent :: "world \<Rightarrow> bool" where
  "consistent w =
     (in_flight w = (if loading (app w) then 1 else 0) \<and>
      (if loading (app w) then analysis (app w) = [] \<and> error_st (app w) = None
       else analysis (app w) = [] \<or> error_st (app w) = None))"

text \<open>
  A data URL as the reader produces it for a PNG file (the base64 text is that of the
  eight-byte PNG signature), and the component once this image has been selected.
\<close>

definition example_url :: js_string where
  "example_url = ascii ''data:image/png;base64,iVBORw0KGgo=''"

definition example_selected :: component where
  "example_selected =
     \<lparr>image_st = Some example_url, analysis = [], loading = False, error_st = None,
      fileInput = None\<rparr>"

section \<open>Basic facts\<close>

lemma truthy_Some: "truthy v = (\<exists>s. v = Some s \<and> s \<noteq> [])"
  by (cases v) (simp_all add: truthy_def)

lemma failure_message_not_empty: "failure_message \<noteq> []"
  by (simp add: failure_message_def)

lemma fallback_text_not_empty: "fallback_text \<noteq> []"
  by (simp add: fallback_text_def)

lemma exec_append: "exec (es @ fs) c = exec fs (exec es c)"
  by (induction es arbitrary: c) simp_all

lemma requests_append: "requests (es @ fs) = requests es @ requests fs"
  by (induction es rule: requests.induct) simp_all

lemma render_fields [simp]:
  "image_st (render c) = image_st c" "analysis (render c) = analysis c"
  "loading (render c) = loading c" "error_st (render c) = error_st c"
  by (simp_all add: render_def)

lemma example_selected_truthy: "truthy (image_st example_selected)"
  by (simp add: example_selected_def example_url_def truthy_def ascii_def)

text \<open>The uncut function is the two halves run one after the other.\<close>

lemma analyzeImage_cut:
  "analyzeImage apiKey ClientThrows c = analyzeImage_sync apiKey True c"
  "truthy (image_st c) \<Longrightarrow>
     analyzeImage apiKey (Awaited s) c = analyzeImage_sync apiKey False c @ analyzeImage_resumed s"
  by (auto simp: analyzeImage_def analyzeImage_sync_def analyzeImage_resumed_def truthy_Some
      split: option.splits settlement.splits)

subsection \<open>Splitting at a separator\<close>

lemma js_split_not_Nil: "js_split sep xs \<noteq> []"
  by (induction xs) (simp_all add: Let_def)

lemma hd_js_split: "hd (js_split sep xs) = takeWhile (\<lambda>x. x \<noteq> sep) xs"
  by (induction xs) (simp_all add: Let_def)

lemma tl_js_split:
  "tl (js_split sep xs) =
     (case dropWhile (\<lambda>x. x \<noteq> sep) xs of [] \<Rightarrow> [] | y # r \<Rightarrow> js_split sep r)"
  by (induction xs) (simp_all add: Let_def)

lemma js_split_unfold:
  "js_split sep xs =
     takeWhile (\<lambda>x. x \<noteq> sep) xs #
     (case dropWhile (\<lambda>x. x \<noteq> sep) xs of [] \<Rightarrow> [] | y # r \<Rightarrow> js_split sep r)"
proof -
  have "js_split sep xs = hd (js_split sep xs) # tl (js_split sep xs)"
    using js_split_not_Nil [of sep xs] by simp
  then show ?thesis
    by (simp only: hd_js_split tl_js_split)
qed

lemma js_index_Cons_1:
  "js_index (a # b) 1 = (case b of [] \<Rightarrow> None | y # ys \<Rightarrow> Some y)"
  by (cases b) (simp_all add: js_index_def)

text \<open>
  The second piece of a split is what stands between the first separator and the
  next one (or the end); there is none when the separator does not occur.
\<close>

lemma js_split_second:
  "js_index (js_split sep xs) 1 =
     (case dropWhile (\<lambda>x. x \<noteq> sep) xs of
        [] \<Rightarrow> None
      | y # r \<Rightarrow> Some (takeWhile (\<lambda>x. x \<noteq> sep) r))"
proof (cases "dropWhile (\<lambda>x. x \<noteq> sep) xs")
  case Nil
  have "js_split sep xs = [takeWhile (\<lambda>x. x \<noteq> sep) xs]"
    by (subst js_split_unfold) (simp only: Nil list.case)
  then show ?thesis
    by (simp only: Nil list.case js_index_Cons_1)
next
  case (Cons y r)
  have "js_split sep xs = takeWhile (\<lambda>x. x \<noteq> sep) xs # js_split sep r"
    by (subst js_split_unfold) (simp only: Cons list.case)
  moreover have "js_split sep r = takeWhile (\<lambda>x. x \<noteq> sep) r # tl (js_split sep r)"
    using js_split_not_Nil [of sep r] hd_js_split [of sep r] by (cases "js_split sep r") simp_all
  ultimately have "js_index (js_split sep xs) 1 = Some (takeWhile (\<lambda>x. x \<noteq> sep) r)"
    by (metis js_index_Cons_1 list.case(2))
  then show ?thesis
    by (simp only: Cons list.case)
qed

lemma one_separator:
  "count_list xs sep = 1 \<Longrightarrow> \<exists>r. dropWhile (\<lambda>x. x \<noteq> sep) xs = sep # r \<and> sep \<notin> set r"
proof (induction xs)
  case Nil
  then show ?case by simp
next
  case (Cons x xs)
  show ?case
  proof (cases "x = sep")
    case True
    with Cons.prems have "count_list xs sep = 0" by simp
    then have "sep \<notin> set xs" by (simp add: count_list_0_iff)
    with True show ?thesis by simp
  next
    case False
    with Cons show ?thesis by simp
  qed
qed

subsection \<open>Data URLs\<close>

lemma data_url_one_comma:
  assumes "comma \<notin> set mediatype" and "comma \<notin> set b64"
  shows "count_list (data_url mediatype b64) comma = 1"
    and "part_after_first_comma (data_url mediatype b64) = b64"
proof -
  let ?pre = "ascii ''data:'' @ mediatype @ ascii '';base64''"
  have split: "data_url mediatype b64 = ?pre @ comma # b64"
    by (simp add: data_url_def ascii_def comma_def)
  have pre: "comma \<notin> set ?pre"
    using assms(1) by (auto simp: ascii_def comma_def)
  then have "count_list ?pre comma = 0"
    by (simp only: count_list_0_iff not_False_eq_True)
  moreover from assms(2) have "count_list b64 comma = 0"
    by (simp only: count_list_0_iff not_False_eq_True)
  ultimately show "count_list (data_url mediatype b64) comma = 1"
    by (simp add: split)
  from pre have "dropWhile (\<lambda>x. x \<noteq> comma) (?pre @ comma # b64) = comma # b64"
    by (subst dropWhile_append2) auto
  then show "part_after_first_comma (data_url mediatype b64) = b64"
    by (simp only: part_after_first_comma_def split) simp
qed

lemma example_url_data_url:
  "example_url = data_url (ascii ''image/png'') (ascii ''iVBORw0KGgo='')"
  by (simp add: example_url_def data_url_def ascii_def)

subsection \<open>Runs without overlapping submissions are consistent\<close>

lemma consistent_initial: "consistent initial"
  by (simp add: consistent_def initial_def)

lemma consistent_step:
  assumes "consistent w" and "step k e w = Some w'"
    and "is_submission e \<Longrightarrow> in_flight w = 0"
  shows "consistent w'"
proof (cases e)
  case (Change v files)
  with assms show ?thesis
    by (cases files) (auto simp: consistent_def handle_def handleImageUpload_def split: if_splits)
next
  case (LoadEnd r)
  with assms show ?thesis
    by (auto simp: consistent_def handle_def onloadend_def split: if_splits)
next
  case (ClickAnalyze ct)
  with assms have idle: "in_flight w = 0" by simp
  with assms(1) have "\<not> loading (app w)"
    by (auto simp: consistent_def split: if_splits)
  with assms ClickAnalyze idle show ?thesis
    by (auto simp: consistent_def handle_def analyzeImage_sync_def truthy_def on_catch_def
        on_finally_def split: if_splits option.splits)
next
  case (Settle s)
  with assms show ?thesis
    by (cases s) (auto simp: consistent_def handle_def analyzeImage_resumed_def on_catch_def
        on_finally_def or_else_def fallback_text_def split: if_splits option.splits)
next
  case ClickReset
  with assms show ?thesis
    by (auto simp: consistent_def handle_def reset_def split: if_splits option.splits)
next
  case Render
  with assms show ?thesis
    by (auto simp: consistent_def split: if_splits)
qed

lemma single_flight_is_run:
  "single_flight k es w = Some w' \<Longrightarrow> run k es w = Some w'"
  by (induction es arbitrary: w) (auto split: if_splits option.splits)

lemma consistent_single_flight:
  "consistent w \<Longrightarrow> single_flight k es w = Some w' \<Longrightarrow> consistent w'"
proof (induction es arbitrary: w)
  case Nil
  then show ?case by simp
next
  case (Cons e es)
  from Cons.prems(2) have free: "is_submission e \<Longrightarrow> in_flight w = 0"
    by (auto split: if_splits)
  from Cons.prems(2) obtain v where v: "step k e w = Some v" "single_flight k es v = Some w'"
    by (auto split: if_splits option.splits)
  from Cons.prems(1) v(1) free have "consistent v"
    by (rule consistent_step)
  then show ?case
    using v(2) by (rule Cons.IH)
qed

text \<open>
  When every click on the analyse button meets a rendering that is up to date in
  its loading flag, no submission overlaps another: the button is then not there
  while a request is pending.
\<close>

lemma rendered_clicks_single_flight:
  "consistent w \<Longrightarrow> rendered_clicks k es w = Some w' \<Longrightarrow> single_flight k es w = Some w'"
proof (induction es arbitrary: w)
  case Nil
  then show ?case by simp
next
  case (Cons e es)
  from Cons.prems(2) obtain v
    where v: "step k e w = Some v" "rendered_clicks k es v = Some w'"
      and fresh: "is_submission e \<Longrightarrow> loading (view w) = loading (app w)"
    by (auto split: if_splits option.splits)
  have free: "in_flight w = 0" if sub: "is_submission e"
  proof -
    from sub obtain ct where "e = ClickAnalyze ct"
      by (cases e) simp_all
    with v(1) have "\<not> loading (view w)"
      by (simp split: if_splits)
    with fresh [OF sub] have "\<not> loading (app w)" by simp
    with Cons.prems(1) show ?thesis
      by (simp add: consistent_def)
  qed
  from Cons.prems(1) v(1) free have "consistent v"
    by (rule consistent_step)
  then have "single_flight k es v = Some w'"
    using v(2) by (rule Cons.IH)
  with v(1) free show ?case
    by auto
qed

text \<open>
  What a settlement leaves behind in a run without overlapping submissions, other
  handlers having run in between or not: \<open>loading\<close> is false; after a rejection
  \<open>error\<close> is the failure message and \<open>analysis\<close> is empty; after a resolution
  \<open>analysis\<close> is the text or the fallback phrase and \<open>error\<close> is unset.
\<close>

lemma settlement_single_flight:
  assumes "single_flight apiKey evs initial = Some w" and "step apiKey (Settle s) w = Some w'"
  shows "\<not> loading (app w') \<and>
         (case s of
            Rejected \<Rightarrow> error_st (app w') = Some failure_message \<and> analysis (app w') = []
          | Resolved t \<Rightarrow> analysis (app w') = or_else t fallback_text \<and> error_st (app w') = None)"
proof -
  from assms(1) have "consistent w"
    using consistent_initial consistent_single_flight by blast
  moreover from assms(2) have "in_flight w \<noteq> 0"
    by (simp split: if_splits)
  ultimately have "analysis (app w) = []" and "error_st (app w) = None"
    by (auto simp: consistent_def split: if_splits)
  with assms(2) show ?thesis
    by (cases s)
      (auto simp: handle_def analyzeImage_resumed_def on_catch_def on_finally_def
        split: if_splits)
qed

text \<open>In any world at all, a resolution leaves \<open>loading\<close> false and \<open>analysis\<close> not empty.\<close>

lemma resolution_anywhere:
  assumes "step apiKey (Settle (Resolved t)) w = Some w'"
  shows "\<not> loading (app w') \<and> analysis (app w') \<noteq> []"
proof -
  have "or_else t fallback_text \<noteq> []"
    by (simp add: or_else_def fallback_text_not_empty split: option.splits)
  with assms show ?thesis
    by (auto simp: handle_def analyzeImage_resumed_def on_finally_def split: if_splits)
qed

text \<open>
  While \<open>loading\<close> is true, no event but a settlement or a further run of
  \<open>analyzeImage\<close> changes the flag: no other handler writes it.
\<close>

lemma loading_until_settled:
  assumes "step apiKey e w = Some w'" and "loading (app w)"
    and "\<not> is_submission e" and "\<forall>s. e \<noteq> Settle s"
  shows "loading (app w')"
  using assms
  by (cases e)
    (auto simp: handle_def handleImageUpload_def onloadend_def reset_def
      split: if_splits list.splits option.splits)

section \<open>The claims\<close>

text \<open>
  C1. When \<open>image\<close> is not set, \<open>analyzeImage\<close> does nothing: it performs no effect
  at all, so the four cells of the Session (and the file input) are as before and
  no request goes to the gateway. The guard \<^verbatim>\<open>if (!image) return\<close> also covers the
  empty string.
\<close>

theorem analyzeImage_without_image:
  assumes "\<not> truthy (image_st c)"
  shows "analyzeImage apiKey outcome c = [] \<and>
         exec (analyzeImage apiKey outcome c) c = c \<and>
         requests (analyzeImage apiKey outcome c) = []"
proof -
  from assms have "analyzeImage apiKey outcome c = []"
    by (simp add: analyzeImage_def truthy_def split: option.splits)
  then show ?thesis by simp
qed

theorem analyzeImage_without_image_witness:
  "\<not> truthy (image_st (app initial)) \<and>
   analyzeImage None (Awaited (Resolved (Some (ascii ''a cat'')))) (app initial) = [] \<and>
   exec (analyzeImage None (Awaited (Resolved (Some (ascii ''a cat'')))) (app initial)) (app initial)
     = app initial \<and>
   requests (analyzeImage None (Awaited (Resolved (Some (ascii ''a cat'')))) (app initial)) = []"
proof -
  have h: "\<not> truthy (image_st (app initial))"
    by (simp add: initial_def truthy_def)
  show ?thesis
    using h analyzeImage_without_image [OF h, of None "Awaited (Resolved (Some (ascii ''a cat'')))"]
    by simp
qed



text \<open>
  C3. Whenever \<open>analyzeImage\<close> runs with an image, whatever the gateway does, its last
  effect is \<^verbatim>\<open>setLoading(false)\<close> and \<open>loading\<close> is false afterwards. The part that
  runs after the \<^verbatim>\<open>await\<close> ends with the same effect.
\<close>

theorem analyzeImage_finally:
  assumes "truthy (image_st c)"
  shows "last (analyzeImage apiKey outcome c) = SetLoading False \<and>
         loading (exec (analyzeImage apiKey outcome c) c) = False \<and>
         last (analyzeImage_resumed s) = SetLoading False"
proof -
  from assms obtain img where img: "image_st c = Some img" "img \<noteq> []"
    by (auto simp: truthy_Some)
  have "last (analyzeImage_resumed s) = SetLoading False"
    by (simp add: analyzeImage_resumed_def on_finally_def)
  moreover from img have "last (analyzeImage apiKey outcome c) = SetLoading False"
    by (simp add: analyzeImage_def on_finally_def)
  moreover from img have "loading (exec (analyzeImage apiKey outcome c) c) = False"
    by (simp add: analyzeImage_def on_finally_def exec_append)
  ultimately show ?thesis by simp
qed

theorem analyzeImage_finally_witness:
  "truthy (image_st example_selected) \<and>
   last (analyzeImage None ClientThrows example_selected) = SetLoading False \<and>
   loading (exec (analyzeImage None ClientThrows example_selected) example_selected) = False \<and>
   last (analyzeImage_resumed (Resolved (Some (ascii ''a cat'')))) = SetLoading False"
  using example_selected_truthy
    analyzeImage_finally [OF example_selected_truthy, of None ClientThrows
      "Resolved (Some (ascii ''a cat''))"]
  by simp

text \<open>
  C4, as the code has it. In every world reached from the first rendering by a run
  in which no submission overlaps another, at most one of "loading", "analysis is
  not empty" and "error is set" holds; and when the request in flight then resolves
  successfully, \<open>loading\<close> is false afterwards and exactly one of "analysis is not
  empty" and "error is set" holds, namely the first. The states meant are those
  between two handlers. Such a run is a run of the page.
\<close>

theorem single_flight_exclusive:
  assumes "single_flight apiKey evs initial = Some w"
  shows "run apiKey evs initial = Some w \<and>
         holding [loading (app w), analysis (app w) \<noteq> [], error_st (app w) \<noteq> None] \<le> 1 \<and>
         (\<forall>text w'. step apiKey (Settle (Resolved text)) w = Some w' \<longrightarrow>
            \<not> loading (app w') \<and>
            holding [analysis (app w') \<noteq> [], error_st (app w') \<noteq> None] = 1 \<and>
            analysis (app w') \<noteq> [] \<and> error_st (app w') = None)"
proof -
  from assms have w: "consistent w"
    using consistent_initial consistent_single_flight by blast
  then have "holding [loading (app w), analysis (app w) \<noteq> [], error_st (app w) \<noteq> None] \<le> 1"
    by (auto simp: consistent_def holding_def split: if_splits)
  moreover have "\<not> loading (app w') \<and>
      holding [analysis (app w') \<noteq> [], error_st (app w') \<noteq> None] = 1 \<and>
      analysis (app w') \<noteq> [] \<and> error_st (app w') = None"
    if s: "step apiKey (Settle (Resolved t)) w = Some w'" for t w'
  proof -
    from s have pending: "in_flight w \<noteq> 0"
      by (simp split: if_splits)
    with w have "loading (app w)" and "error_st (app w) = None"
      by (auto simp: consistent_def split: if_splits)
    moreover have "or_else t fallback_text \<noteq> []"
      by (simp add: or_else_def fallback_text_not_empty split: option.splits)
    ultimately show ?thesis
      using s pending
      by (auto simp: handle_def analyzeImage_resumed_def on_finally_def holding_def)
  qed
  moreover from assms have "run apiKey evs initial = Some w"
    by (rule single_flight_is_run)
  ultimately show ?thesis by blast
qed

theorem single_flight_exclusive_witness:
  "single_flight (Some (ascii ''key''))
     [Change (ascii ''cat.png'') [[0x89, 0x50, 0x4E, 0x47]],
      LoadEnd (Some example_url), Render, ClickAnalyze False] initial
     = Some \<lparr>app = example_selected\<lparr>loading := True\<rparr>, view = example_selected,
             reading = 0, in_flight = 1\<rparr> \<and>
   step (Some (ascii ''key'')) (Settle (Resolved (Some (ascii ''a cat''))))
       \<lparr>app = example_selected\<lparr>loading := True\<rparr>, view = example_selected,
        reading = 0, in_flight = 1\<rparr>
     = Some \<lparr>app = example_selected\<lparr>analysis := ascii ''a cat''\<rparr>, view = example_selected,
             reading = 0, in_flight = 0\<rparr> \<and>
   holding [loading (example_selected\<lparr>loading := True\<rparr>),
            analysis (example_selected\<lparr>loading := True\<rparr>) \<noteq> [],
            error_st (example_selected\<lparr>loading := True\<rparr>) \<noteq> None] \<le> 1 \<and>
   \<not> loading (example_selected\<lparr>analysis := ascii ''a cat''\<rparr>) \<and>
   holding [analysis (example_selected\<lparr>analysis := ascii ''a cat''\<rparr>) \<noteq> [],
            error_st (example_selected\<lparr>analysis := ascii ''a cat''\<rparr>) \<noteq> None] = 1"
proof -
  let ?k = "Some (ascii ''key'')"
  let ?w = "\<lparr>app = example_selected\<lparr>loading := True\<rparr>, view = example_selected,
             reading = 0, in_flight = 1\<rparr>"
  let ?w' = "\<lparr>app = example_selected\<lparr>analysis := ascii ''a cat''\<rparr>, view = example_selected,
              reading = 0, in_flight = 0\<rparr>"
  have r: "single_flight ?k [Change (ascii ''cat.png'') [[0x89, 0x50, 0x4E, 0x47]],
             LoadEnd (Some example_url), Render, ClickAnalyze False] initial = Some ?w"
    by (simp add: initial_def handle_def handleImageUpload_def onloadend_def render_def
        truthy_def example_selected_def example_url_def ascii_def analyzeImage_sync_def)
  have s: "step ?k (Settle (Resolved (Some (ascii ''a cat'')))) ?w = Some ?w'"
    by (simp add: handle_def analyzeImage_resumed_def on_finally_def or_else_def
        example_selected_def example_url_def ascii_def)
  from single_flight_exclusive [OF r] s
  have "holding [loading (app ?w), analysis (app ?w) \<noteq> [], error_st (app ?w) \<noteq> None] \<le> 1"
    and "\<not> loading (app ?w')"
    and "holding [analysis (app ?w') \<noteq> [], error_st (app ?w') \<noteq> None] = 1"
    by blast+
  with r s show ?thesis
    by simp
qed

text \<open>
  C4, as it is stated, fails. The analyse button is clicked twice before the page is
  rendered again; the first request is rejected, the second resolves. After that
  successful resolution \<open>analysis\<close> is not empty and \<open>error\<close> is set, both at once.
\<close>

theorem overlapping_submissions_counterexample:
  "run (Some (ascii ''key''))
     [Change (ascii ''cat.png'') [[0x89, 0x50, 0x4E, 0x47]],
      LoadEnd (Some example_url), Render,
      ClickAnalyze False, ClickAnalyze False, Render,
      Settle Rejected, Render] initial
     = Some \<lparr>app = example_selected\<lparr>error_st := Some failure_message\<rparr>,
             view = example_selected\<lparr>error_st := Some failure_message\<rparr>,
             reading = 0, in_flight = 1\<rparr> \<and>
   step (Some (ascii ''key'')) (Settle (Resolved (Some (ascii ''a cat''))))
       \<lparr>app = example_selected\<lparr>error_st := Some failure_message\<rparr>,
        view = example_selected\<lparr>error_st := Some failure_message\<rparr>,
        reading = 0, in_flight = 1\<rparr>
     = Some \<lparr>app = example_selected\<lparr>analysis := ascii ''a cat'',
                                     error_st := Some failure_message\<rparr>,
             view = example_selected\<lparr>error_st := Some failure_message\<rparr>,
             reading = 0, in_flight = 0\<rparr> \<and>
   analysis (example_selected\<lparr>analysis := ascii ''a cat'',
                              error_st := Some failure_message\<rparr>) \<noteq> [] \<and>
   error_st (example_selected\<lparr>analysis := ascii ''a cat'',
                              error_st := Some failure_message\<rparr>) \<noteq> None \<and>
   holding [analysis (example_selected\<lparr>analysis := ascii ''a cat'',
                                       error_st := Some failure_message\<rparr>) \<noteq> [],
            error_st (example_selected\<lparr>analysis := ascii ''a cat'',
                                       error_st := Some failure_message\<rparr>) \<noteq> None] \<noteq> 1"
  by (simp add: initial_def handle_def handleImageUpload_def onloadend_def render_def
      truthy_def example_selected_def example_url_def ascii_def analyzeImage_sync_def
      analyzeImage_resumed_def on_catch_def on_finally_def or_else_def holding_def)

text \<open>
  C5. From every state, \<open>reset\<close> leaves \<open>image\<close> cleared, \<open>analysis\<close> empty and \<open>error\<close>
  cleared, and resetting twice is the same as resetting once.
\<close>

theorem reset_empty_idempotent:
  "image_st (exec reset c) = None \<and> analysis (exec reset c) = [] \<and>
   error_st (exec reset c) = None \<and> exec reset (exec reset c) = exec reset c"
  by (simp add: reset_def split: option.splits)

text \<open>
  C6. From every state, whatever \<open>analysis\<close> and \<open>error\<close> held before, a file selection
  whose read completes with the data URL \<open>url\<close> sets \<open>image\<close> to \<open>url\<close>, \<open>analysis\<close> to
  the empty string and \<open>error\<close> to \<open>null\<close>.
\<close>

theorem selectImage_clears:
  "image_st (exec (onloadend (Some url)) (exec (handleImageUpload (f # fs)) c)) = Some url \<and>
   analysis (exec (onloadend (Some url)) (exec (handleImageUpload (f # fs)) c)) = [] \<and>
   error_st (exec (onloadend (Some url)) (exec (handleImageUpload (f # fs)) c)) = None"
  by (simp add: onloadend_def handleImageUpload_def)



text \<open>
  C8, as the code has it. \<open>image\<close> is only ever written with the result of
  \<^verbatim>\<open>readAsDataURL\<close>, a string with one comma, at the end of its scheme prefix. When
  \<open>analyzeImage\<close> runs with such an image and the request is reached, exactly one
  request is sent: it carries the credential, the model identifier
  \<^verbatim>\<open>gemini-3-flash-preview\<close>, the MIME type \<^verbatim>\<open>image/jpeg\<close> whatever the data URL
  declares, the fixed instruction, and as data the part of the image string after
  its first comma. When the client constructor throws instead, the \<^verbatim>\<open>catch\<close>
  branch runs (the error is logged and \<open>error\<close> set to the failure message, then
  \<open>loading\<close> is set to false) and no request is sent.
\<close>

theorem analyzeImage_request:
  assumes "image_st c = Some img" and "count_list img comma = 1"
  shows "requests (analyzeImage apiKey (Awaited s) c) =
           [\<lparr>req_apiKey = apiKey,
             req_model = ascii ''gemini-3-flash-preview'',
             req_mimeType = ascii ''image/jpeg'',
             req_data = Some (part_after_first_comma img),
             req_text = instruction_text\<rparr>] \<and>
         analyzeImage apiKey ClientThrows c =
           [SetLoading True, SetError None, SetAnalysis [],
            ConsoleError, SetError (Some failure_message), SetLoading False] \<and>
         requests (analyzeImage apiKey ClientThrows c) = []"
proof -
  from assms(2) have img: "img \<noteq> []"
    by auto
  have sent: "requests (analyzeImage apiKey (Awaited s) c)
      = [generateContent_request apiKey img]"
    using assms(1) img
    by (cases s) (simp_all add: analyzeImage_def on_catch_def on_finally_def)
  have "req_data (generateContent_request apiKey img) =
      (case dropWhile (\<lambda>x. x \<noteq> comma) img of
         [] \<Rightarrow> None
       | y # r \<Rightarrow> Some (takeWhile (\<lambda>x. x \<noteq> comma) r))"
    by (simp only: generateContent_request_def request.simps js_split_second)
  moreover from one_separator [OF assms(2)] obtain r
    where r: "dropWhile (\<lambda>x. x \<noteq> comma) img = comma # r" "comma \<notin> set r"
    by blast
  moreover from r(2) have "\<forall>x\<in>set r. x \<noteq> comma"
    by blast
  then have "takeWhile (\<lambda>x. x \<noteq> comma) r = r"
    by simp
  ultimately have "req_data (generateContent_request apiKey img)
      = Some (part_after_first_comma img)"
    by (simp add: part_after_first_comma_def)
  then have "generateContent_request apiKey img =
      \<lparr>req_apiKey = apiKey,
       req_model = ascii ''gemini-3-flash-preview'',
       req_mimeType = ascii ''image/jpeg'',
       req_data = Some (part_after_first_comma img),
       req_text = instruction_text\<rparr>"
    by (simp add: generateContent_request_def model_id_def mime_type_def)
  moreover have "analyzeImage apiKey ClientThrows c =
      [SetLoading True, SetError None, SetAnalysis [],
       ConsoleError, SetError (Some failure_message), SetLoading False]"
    using assms(1) img by (simp add: analyzeImage_def on_catch_def on_finally_def)
  ultimately show ?thesis
    using sent by simp
qed

theorem analyzeImage_request_witness:
  "image_st example_selected = Some example_url \<and>
   count_list example_url comma = 1 \<and>
   requests (analyzeImage (Some (ascii ''key'')) (Awaited Rejected) example_selected) =
     [\<lparr>req_apiKey = Some (ascii ''key''),
       req_model = ascii ''gemini-3-flash-preview'',
       req_mimeType = ascii ''image/jpeg'',
       req_data = Some (ascii ''iVBORw0KGgo=''),
       req_text = instruction_text\<rparr>] \<and>
   requests (analyzeImage (Some (ascii ''key'')) ClientThrows example_selected) = []"
proof -
  have i: "image_st example_selected = Some example_url"
    by (simp add: example_selected_def)
  have k: "count_list example_url comma = 1"
    by (simp add: example_url_def ascii_def comma_def)
  have d: "dropWhile (\<lambda>x. x \<noteq> comma) example_url = comma # ascii ''iVBORw0KGgo=''"
    by (simp add: example_url_def ascii_def comma_def)
  have p: "part_after_first_comma example_url = ascii ''iVBORw0KGgo=''"
    by (simp add: part_after_first_comma_def d)
  from analyzeImage_request [OF i k, of "Some (ascii ''key'')" Rejected] show ?thesis
    using i k by (simp add: p)
qed

text \<open>
  C8, as it is stated, fails: with an image selected and no credential, the client
  constructor throws and the run sends no request, not one.
\<close>

theorem analyzeImage_request_counterexample:
  "truthy (image_st example_selected) \<and>
   requests (analyzeImage None ClientThrows example_selected) = [] \<and>
   length (requests (analyzeImage None ClientThrows example_selected)) \<noteq> 1"
  by (simp add: analyzeImage_def example_selected_def example_url_def ascii_def
      on_catch_def on_finally_def truthy_def)

text \<open>
  C9. When the read of a selected file fails, the callback runs with a \<open>null\<close>
  result; no effect of the operation sets \<open>error\<close> to a message, and \<open>error\<close> is
  unset afterwards.
\<close>

theorem failed_read_no_error:
  "error_st (exec (onloadend None) (exec (handleImageUpload (f # fs)) c)) = None \<and>
   SetError (Some m) \<notin> set (handleImageUpload (f # fs) @ onloadend None)"
  by (simp add: onloadend_def handleImageUpload_def)

text \<open>
  C10. \<open>reset\<close> does not write the loading flag: \<open>loading\<close> is after a reset what it
  was before, in the component and in the world after the restart button has been
  handled, where the request in flight is still in flight. A reset during a pending
  request therefore leaves \<open>loading\<close> true, and it is the rest of \<open>analyzeImage\<close>, run
  when the request settles, that sets it to false (\<open>loading_until_settled\<close>: no
  handler other than \<open>analyzeImage\<close> writes the flag).
\<close>

theorem reset_keeps_loading:
  "loading (exec reset c) = loading c \<and>
   SetLoading b \<notin> set reset \<and>
   loading (app (handle reset w)) = loading (app w) \<and>
   in_flight (handle reset w) = in_flight w \<and>
   loading (exec (analyzeImage_resumed s) (exec reset c)) = False"
  by (simp add: reset_def handle_def analyzeImage_resumed_def on_finally_def exec_append
      split: option.splits)

end
